theory Spec2Isabelle
  imports Main
begin

section \<open>The Jibri queue client (modules/recording/JibriQueue.js)\<close>

text \<open>
  The class \<open>JibriQueue\<close> keeps a membership flag and the last metrics it was told,
  sends join and leave requests over an XMPP connection, and answers the queue's
  pushes. The model below follows the class method by method. What the class only
  calls (the DOM, jQuery's \<open>find\<close>, Strophe's stanza builder, the connection, the
  event emitter, promises) is modelled by the data those calls leave behind: the
  stanzas handed to the connection, the callbacks waiting for an answer, the events
  passed to \<open>emit\<close> and the state of every promise returned. Logging is left out.
\<close>

subsection \<open>DOM elements\<close>

datatype element =
  Element (tagName: string) (attributes: "(string \<times> string) list") (childNodes: "node list")
and node =
  ElementNode element
| TextNode string

text \<open>\<open>elem.getAttribute(k)\<close>: the value, or \<open>null\<close> (here \<open>None\<close>).\<close>

definition getAttribute :: "element \<Rightarrow> string \<Rightarrow> string option" where
  "getAttribute e k = map_of (attributes e) k"

text \<open>\<open>elem.children\<close>: the child elements, in document order, text nodes left out.\<close>

fun elementsOf :: "node list \<Rightarrow> element list" where
  "elementsOf [] = []"
| "elementsOf (ElementNode e # ns) = e # elementsOf ns"
| "elementsOf (TextNode v # ns) = elementsOf ns"

definition children :: "element \<Rightarrow> element list" where
  "children e = elementsOf (childNodes e)"

text \<open>
  \<open>$(iq).find(name)\<close>: the descendants of \<open>iq\<close> (never \<open>iq\<close> itself) whose tag is
  \<open>name\<close>, in document order.
\<close>

fun descendants :: "element \<Rightarrow> element list"
  and descendantsOf :: "node list \<Rightarrow> element list" where
  "descendants (Element t as ns) = descendantsOf ns"
| "descendantsOf [] = []"
| "descendantsOf (ElementNode e # ns) = e # descendants e @ descendantsOf ns"
| "descendantsOf (TextNode v # ns) = descendantsOf ns"

definition find_tag :: "element \<Rightarrow> string \<Rightarrow> element list" where
  "find_tag e name = filter (\<lambda>d. tagName d = name) (descendants e)"

text \<open>
  The text of an element as the concatenation of its own text nodes. The class reads
  text through \<open>Strophe.getText\<close>, which every function below takes as the parameter
  \<open>getText\<close>; \<open>textNodes\<close> is the reading used where a concrete one is needed.
\<close>

fun textOf :: "node list \<Rightarrow> string" where
  "textOf [] = []"
| "textOf (TextNode v # ns) = v @ textOf ns"
| "textOf (ElementNode e # ns) = textOf ns"

definition textNodes :: "element \<Rightarrow> string" where
  "textNodes e = textOf (childNodes e)"

subsection \<open>Strophe's stanza builder\<close>

text \<open>
  A builder holds the tree being built and the node new children go under. Children
  are only ever appended last, so the current node is on the rightmost branch: the
  model keeps the current node and, above it, the elements still open.
  An attribute given as \<open>null\<close> is not set.
\<close>

datatype builder = Builder (current: element) (parents: "element list")

definition xmlElement :: "string \<Rightarrow> (string \<times> string option) list \<Rightarrow> element" where
  "xmlElement name as = Element name (concat (map (\<lambda>(k, v). case v of None \<Rightarrow> [] | Some x \<Rightarrow> [(k, x)]) as)) []"

text \<open>\<open>$iq(attrs)\<close>: an \<open>iq\<close> element in the client namespace.\<close>

definition iq_builder :: "(string \<times> string option) list \<Rightarrow> builder" where
  "iq_builder as = Builder (xmlElement ''iq'' (as @ [(''xmlns'', Some ''jabber:client'')])) []"

fun appendChild :: "element \<Rightarrow> element \<Rightarrow> element" where
  "appendChild (Element t as ns) e = Element t as (ns @ [ElementNode e])"

text \<open>\<open>.c(name, attrs)\<close>: a new child of the current node, which becomes current.\<close>

fun builder_c :: "string \<Rightarrow> (string \<times> string option) list \<Rightarrow> builder \<Rightarrow> builder" where
  "builder_c name as (Builder n ps) = Builder (xmlElement name as) (n # ps)"

text \<open>\<open>.up()\<close>: the parent becomes current.\<close>

fun builder_up :: "builder \<Rightarrow> builder" where
  "builder_up (Builder n (p # ps)) = Builder (appendChild p n) ps"
| "builder_up (Builder n []) = Builder n []"

fun setAttribute :: "string \<Rightarrow> string \<Rightarrow> (string \<times> string) list \<Rightarrow> (string \<times> string) list" where
  "setAttribute k v [] = [(k, v)]"
| "setAttribute k v ((k', v') # as) =
     (if k' = k then (k, v) # as else (k', v') # setAttribute k v as)"

text \<open>\<open>.attrs(more)\<close>: sets the attributes of the current node.\<close>

fun builder_attrs :: "(string \<times> string) list \<Rightarrow> builder \<Rightarrow> builder" where
  "builder_attrs more (Builder (Element t as ns) ps) =
     Builder (Element t (fold (\<lambda>(k, v). setAttribute k v) more as) ns) ps"

text \<open>\<open>.tree()\<close>: the whole stanza, which is what the connection sends.\<close>

fun closeAll :: "element \<Rightarrow> element list \<Rightarrow> element" where
  "closeAll n [] = n"
| "closeAll n (p # ps) = closeAll (appendChild p n) ps"

definition tree :: "builder \<Rightarrow> element" where
  "tree b = closeAll (current b) (parents b)"

subsection \<open>The state\<close>

record MetricsSnapshot =
  position :: "string option"
  estimatedTimeLeft :: "string option"

text \<open>
  What a promise is rejected with: an \<open>Error\<close> the class makes itself, or the error the
  connection reports, passed on as it is.
\<close>

datatype 'e rejection = Error string | TransportError 'e

datatype 'e promise = Pending | Resolved | Rejected "'e rejection"

text \<open>
  The two callbacks handed to \<open>sendIQ\<close>, named by the method that made them; the
  number is the promise whose \<open>resolve\<close> and \<open>reject\<close> they close over.
\<close>

datatype callbacks = JoinCallbacks nat | LeaveCallbacks nat

text \<open>
  What \<open>emit\<close> is called with: \<open>metrics\<close> and the metrics as they are at the call, or
  \<open>token\<close> and the \<open>value\<close> attribute (\<open>null\<close> when the push has none).
\<close>

datatype event = MetricsEvent MetricsSnapshot | TokenEvent "string option"

text \<open>
  The fields of the instance, then its surroundings: the connection (whether the
  handler is registered, the requests given to \<open>sendIQ\<close>, the callbacks of each that
  the connection has still to call, the stanzas given to \<open>send\<close>), the emitter (the
  listeners and every call of \<open>emit\<close>) and the promises returned so far.
\<close>

record 'e JibriQueue =
  id_num :: nat
  metrics :: MetricsSnapshot
  hasJoined :: bool
  jibriQueueJID :: string
  roomJID :: string
  connectionHandlerRef :: bool
  iqRequests :: "element list"
  iqCallbacks :: "callbacks option list"
  sentStanzas :: "element list"
  listeners :: "(string \<times> nat) list"
  emitted :: "event list"
  promises :: "'e promise list"

text \<open>
  The constructor; \<open>n\<close> is the value of the module's counter \<open>id\<close>. The metrics start
  as the empty object (both fields \<open>undefined\<close>), the flag as \<open>false\<close>, and the handler is
  registered at once.
\<close>

definition constructor :: "nat \<Rightarrow> string \<Rightarrow> string \<Rightarrow> 'e JibriQueue" where
  "constructor n jid room =
     \<lparr> id_num = n,
       metrics = \<lparr> position = None, estimatedTimeLeft = None \<rparr>,
       hasJoined = False,
       jibriQueueJID = jid,
       roomJID = room,
       connectionHandlerRef = True,
       iqRequests = [],
       iqCallbacks = [],
       sentStanzas = [],
       listeners = [],
       emitted = [],
       promises = [] \<rparr>"

subsection \<open>Promises and the connection\<close>

text \<open>A new promise in the given state; the result is its number.\<close>

definition newPromise :: "'e promise \<Rightarrow> 'e JibriQueue \<Rightarrow> nat \<times> 'e JibriQueue" where
  "newPromise p s = (length (promises s), s\<lparr>promises := promises s @ [p]\<rparr>)"

text \<open>\<open>reject(error)\<close>: settles a pending promise, and does nothing to a settled one.\<close>

definition reject :: "nat \<Rightarrow> 'e rejection \<Rightarrow> 'e JibriQueue \<Rightarrow> 'e JibriQueue" where
  "reject p r s =
     (if p < length (promises s) \<and> promises s ! p = Pending
      then s\<lparr>promises := (promises s)[p := Rejected r]\<rparr> else s)"

text \<open>\<open>connection.sendIQ(stanza, onSuccess, onError)\<close>.\<close>

definition sendIQ :: "builder \<Rightarrow> callbacks \<Rightarrow> 'e JibriQueue \<Rightarrow> 'e JibriQueue" where
  "sendIQ b cb s =
     s\<lparr>iqRequests := iqRequests s @ [tree b], iqCallbacks := iqCallbacks s @ [Some cb]\<rparr>"

text \<open>\<open>connection.send(stanza)\<close>.\<close>

definition send :: "builder \<Rightarrow> 'e JibriQueue \<Rightarrow> 'e JibriQueue" where
  "send b s = s\<lparr>sentStanzas := sentStanzas s @ [tree b]\<rparr>"

text \<open>\<open>this.emit(...)\<close>.\<close>

definition emit :: "event \<Rightarrow> 'e JibriQueue \<Rightarrow> 'e JibriQueue" where
  "emit ev s = s\<lparr>emitted := emitted s @ [ev]\<rparr>"

subsection \<open>join and leave\<close>

text \<open>
  \<open>join()\<close> returns a promise. The success callback sets the flag and logs; it does not
  call \<open>resolve\<close>. The error callback logs and rejects.
\<close>

definition join :: "'e JibriQueue \<Rightarrow> nat \<times> 'e JibriQueue" where
  "join s =
     (if hasJoined s then newPromise (Rejected (Error ''The queue is already joined!'')) s
      else
        let (p, s1) = newPromise Pending s
        in (p, sendIQ
                 (builder_up
                    (builder_c ''jibri-queue''
                       [(''xmlns'', Some ''http://jitsi.org/protocol/jibri-queue''),
                        (''action'', Some ''join''),
                        (''room'', Some (roomJID s))]
                       (iq_builder [(''to'', Some (jibriQueueJID s)), (''type'', Some ''set'')])))
                 (JoinCallbacks p) s1))"

definition leave :: "'e JibriQueue \<Rightarrow> nat \<times> 'e JibriQueue" where
  "leave s =
     (if \<not> hasJoined s then newPromise (Rejected (Error ''There's no queue to leave!'')) s
      else
        let (p, s1) = newPromise Pending s
        in (p, sendIQ
                 (builder_up
                    (builder_c ''jibri-queue''
                       [(''xmlns'', Some ''http://jitsi.org/protocol/jibri-queue''),
                        (''action'', Some ''leave'')]
                       (iq_builder [(''to'', Some (jibriQueueJID s)), (''type'', Some ''set'')])))
                 (LeaveCallbacks p) s1))"

fun onSuccess :: "callbacks \<Rightarrow> 'e JibriQueue \<Rightarrow> 'e JibriQueue" where
  "onSuccess (JoinCallbacks p) s = s\<lparr>hasJoined := True\<rparr>"
| "onSuccess (LeaveCallbacks p) s = s"

fun onError :: "callbacks \<Rightarrow> 'e \<Rightarrow> 'e JibriQueue \<Rightarrow> 'e JibriQueue" where
  "onError (JoinCallbacks p) e s = reject p (TransportError e) s"
| "onError (LeaveCallbacks p) e s = reject p (TransportError e) s"

subsection \<open>The handler of incoming IQs\<close>

text \<open>One turn of the loop over the children of an \<open>info\<close> push.\<close>

definition infoChild ::
  "(element \<Rightarrow> string) \<Rightarrow> element \<Rightarrow> MetricsSnapshot \<times> bool \<Rightarrow> MetricsSnapshot \<times> bool" where
  "infoChild getText child mu =
     (case mu of (m, updated) \<Rightarrow>
        if tagName child = ''position'' then
          (let position' = getText child
           in if Some position' \<noteq> position m then (m\<lparr>position := Some position'\<rparr>, True)
              else (m, updated))
        else if tagName child = ''time'' then
          (let estimatedTimeLeft' = getText child
           in if Some estimatedTimeLeft' \<noteq> estimatedTimeLeft m
              then (m\<lparr>estimatedTimeLeft := Some estimatedTimeLeft'\<rparr>, True)
              else (m, updated))
        else (m, updated))"

fun infoLoop ::
  "(element \<Rightarrow> string) \<Rightarrow> element list \<Rightarrow> MetricsSnapshot \<times> bool \<Rightarrow> MetricsSnapshot \<times> bool" where
  "infoLoop getText [] mu = mu"
| "infoLoop getText (child # rest) mu = infoLoop getText rest (infoChild getText child mu)"

text \<open>
  \<open>_onIQ(iq)\<close>. The result is what the handler returns (\<open>None\<close> for \<open>undefined\<close>) and the
  state it leaves.
\<close>

definition onIQ ::
  "(element \<Rightarrow> string) \<Rightarrow> element \<Rightarrow> 'e JibriQueue \<Rightarrow> bool option \<times> 'e JibriQueue" where
  "onIQ getText iq s =
     (if \<not> hasJoined s then (None, s)
      else
        let jibriQueueNodes = find_tag iq ''jibri-queue'';
            from = getAttribute iq ''from''
        in if from \<noteq> Some (jibriQueueJID s) \<or> length jibriQueueNodes = 0 then (None, s)
           else
             let jibriQueue = hd jibriQueueNodes;
                 action = getAttribute jibriQueue ''action'';
                 value = getAttribute jibriQueue ''value'';
                 ack = iq_builder
                         [(''type'', Some ''result''), (''to'', from), (''id'', getAttribute iq ''id'')]
             in if action = Some ''info'' then
                  (let (m, updated) = infoLoop getText (children jibriQueue) (metrics s, False);
                       s1 = s\<lparr>metrics := m\<rparr>;
                       s2 = (if updated then emit (MetricsEvent (metrics s1)) s1 else s1)
                   in (Some True, send ack s2))
                else if action = Some ''token'' then
                  (Some True, send ack (emit (TokenEvent value) s))
                else
                  (let ack1 = builder_attrs [(''type'', ''error'')] ack;
                       ack2 = builder_up
                                (builder_c ''service-unavailable''
                                   [(''xmlns'', Some ''urn:ietf:params:xml:ns:xmpp-stanzas'')]
                                   (builder_c ''error'' [(''type'', Some ''cancel'')] ack1))
                   in (Some True, send ack2 s)))"

subsection \<open>dispose\<close>

definition dispose :: "'e JibriQueue \<Rightarrow> 'e JibriQueue" where
  "dispose s = s\<lparr>connectionHandlerRef := False, listeners := []\<rparr>"

subsection \<open>What can happen to an instance\<close>

text \<open>
  The caller calls \<open>join\<close>, \<open>leave\<close>, \<open>dispose\<close> or \<open>on\<close>; the connection answers request
  \<open>n\<close> with success or with an error (once: the callbacks of an answered request are
  gone), or delivers an IQ to the handler while the handler is registered. What the
  connection does with the value the handler returns is left to the connection.
\<close>

datatype 'e input =
  Join | Leave | Dispose | On string nat
| IqSuccess nat | IqError nat 'e | Deliver element

definition on :: "string \<Rightarrow> nat \<Rightarrow> 'e JibriQueue \<Rightarrow> 'e JibriQueue" where
  "on name l s = s\<lparr>listeners := listeners s @ [(name, l)]\<rparr>"

definition iqSuccess :: "nat \<Rightarrow> 'e JibriQueue \<Rightarrow> 'e JibriQueue" where
  "iqSuccess n s =
     (if n < length (iqCallbacks s) then
        (case iqCallbacks s ! n of
           None \<Rightarrow> s
         | Some cb \<Rightarrow> onSuccess cb (s\<lparr>iqCallbacks := (iqCallbacks s)[n := None]\<rparr>))
      else s)"

definition iqError :: "nat \<Rightarrow> 'e \<Rightarrow> 'e JibriQueue \<Rightarrow> 'e JibriQueue" where
  "iqError n e s =
     (if n < length (iqCallbacks s) then
        (case iqCallbacks s ! n of
           None \<Rightarrow> s
         | Some cb \<Rightarrow> onError cb e (s\<lparr>iqCallbacks := (iqCallbacks s)[n := None]\<rparr>))
      else s)"

definition deliver :: "(element \<Rightarrow> string) \<Rightarrow> element \<Rightarrow> 'e JibriQueue \<Rightarrow> 'e JibriQueue" where
  "deliver getText iq s = (if connectionHandlerRef s then snd (onIQ getText iq s) else s)"

fun step :: "(element \<Rightarrow> string) \<Rightarrow> 'e input \<Rightarrow> 'e JibriQueue \<Rightarrow> 'e JibriQueue" where
  "step getText Join s = snd (join s)"
| "step getText Leave s = snd (leave s)"
| "step getText Dispose s = dispose s"
| "step getText (On name l) s = on name l s"
| "step getText (IqSuccess n) s = iqSuccess n s"
| "step getText (IqError n e) s = iqError n e s"
| "step getText (Deliver iq) s = deliver getText iq s"

fun run :: "(element \<Rightarrow> string) \<Rightarrow> 'e input list \<Rightarrow> 'e JibriQueue \<Rightarrow> 'e JibriQueue" where
  "run getText [] s = s"
| "run getText (i # is) s = run getText is (step getText i s)"

subsection \<open>Notions used to state the properties\<close>

text \<open>
  A child of an \<open>info\<close> push differs from the snapshot \<open>m\<close> when it is a \<open>position\<close> whose
  text is not the stored position, or a \<open>time\<close> whose text is not the stored time left.
\<close>

definition fieldDiffers :: "(element \<Rightarrow> string) \<Rightarrow> element \<Rightarrow> MetricsSnapshot \<Rightarrow> bool" where
  "fieldDiffers getText child m =
     (tagName child = ''position'' \<and> Some (getText child) \<noteq> position m \<or>
      tagName child = ''time'' \<and> Some (getText child) \<noteq> estimatedTimeLeft m)"

text \<open>
  A request handed to \<open>sendIQ\<close> is a join request when it is an \<open>iq\<close> of type \<open>set\<close> whose
  one child has the action \<open>join\<close>; \<open>answers r cb\<close> says that callbacks made by \<open>join()\<close>
  wait for the answer to a join request.
\<close>

definition isJoinRequest :: "element \<Rightarrow> bool" where
  "isJoinRequest e =
     (tagName e = ''iq'' \<and> getAttribute e ''type'' = Some ''set'' \<and>
      map (\<lambda>c. getAttribute c ''action'') (children e) = [Some ''join''])"

definition answers :: "element \<Rightarrow> callbacks option \<Rightarrow> bool" where
  "answers r cb = (case cb of Some (JoinCallbacks p) \<Rightarrow> isJoinRequest r | _ \<Rightarrow> True)"

subsection \<open>Concrete instances\<close>

text \<open>
  A queue bound to \<open>jibri-queue@example.org\<close>, the same queue after its join request was
  answered with success, and pushes as the queue service sends them.
\<close>

definition exampleQueue :: "string JibriQueue" where
  "exampleQueue = constructor 0 ''jibri-queue@example.org'' ''room@conference.example.org''"

definition exampleJoined :: "string JibriQueue" where
  "exampleJoined = run textNodes [Join, IqSuccess 0] exampleQueue"

definition examplePush :: "string \<Rightarrow> (string \<times> string) list \<Rightarrow> node list \<Rightarrow> element" where
  "examplePush sender as ns =
     Element ''iq'' [(''from'', sender), (''id'', ''42''), (''type'', ''set'')]
       [ElementNode
          (Element ''jibri-queue'' ((''xmlns'', ''http://jitsi.org/protocol/jibri-queue'') # as) ns)]"

definition exampleField :: "string \<Rightarrow> string \<Rightarrow> node" where
  "exampleField name v = ElementNode (Element name [] [TextNode v])"

definition exampleInfo :: element where
  "exampleInfo = examplePush ''jibri-queue@example.org'' [(''action'', ''info'')]
     [exampleField ''position'' ''5'', exampleField ''time'' ''30'']"

definition exampleInformed :: "string JibriQueue" where
  "exampleInformed = run textNodes [Join, IqSuccess 0, Deliver exampleInfo] exampleQueue"




definition exampleUnknown :: element where
  "exampleUnknown = examplePush ''jibri-queue@example.org'' [(''action'', ''promote'')] []"

definition exampleFromResource :: element where
  "exampleFromResource = examplePush ''jibri-queue@example.org/service'' [(''action'', ''info'')]
     [exampleField ''position'' ''5'']"

definition exampleNoPayload :: element where
  "exampleNoPayload =
     Element ''iq'' [(''from'', ''jibri-queue@example.org''), (''id'', ''42''), (''type'', ''set'')]
       [ElementNode (Element ''query'' [(''xmlns'', ''http://jitsi.org/protocol/jibri-queue'')] [])]"

definition exampleThereAndBack :: element where
  "exampleThereAndBack = examplePush ''jibri-queue@example.org'' [(''action'', ''info'')]
     [exampleField ''position'' ''9'', exampleField ''position'' ''5'']"

section \<open>Properties\<close>

subsection \<open>The loop over the children of an info push\<close>

lemma infoChild_eq:
  "infoChild g c (m, u) =
     (if tagName c = ''position'' \<and> Some (g c) \<noteq> position m then (m\<lparr>position := Some (g c)\<rparr>, True)
      else if tagName c = ''time'' \<and> Some (g c) \<noteq> estimatedTimeLeft m
        then (m\<lparr>estimatedTimeLeft := Some (g c)\<rparr>, True)
      else (m, u))"
  by (simp add: infoChild_def Let_def)

lemma infoChild_flag:
  "snd (infoChild g c (m, u)) = (u \<or> fieldDiffers g c m)"
  by (auto simp: infoChild_eq fieldDiffers_def)

lemma infoChild_same:
  "\<not> fieldDiffers g c m \<Longrightarrow> infoChild g c (m, u) = (m, u)"
  by (auto simp: infoChild_eq fieldDiffers_def)

lemma infoLoop_snoc: "infoLoop g (cs @ [c]) mu = infoChild g c (infoLoop g cs mu)"
  by (induction cs arbitrary: mu) simp_all

lemma infoLoop_flag:
  "snd (infoLoop g cs (m, u)) =
     (u \<or> (\<exists>i. i < length cs \<and> fieldDiffers g (cs ! i) (fst (infoLoop g (take i cs) (m, u)))))"
proof (induction cs rule: rev_induct)
  case Nil
  show ?case by simp
next
  case (snoc c cs)
  define P where "P i = fieldDiffers g (cs ! i) (fst (infoLoop g (take i cs) (m, u)))" for i
  define Q where
    "Q i = fieldDiffers g ((cs @ [c]) ! i) (fst (infoLoop g (take i (cs @ [c])) (m, u)))" for i
  obtain m1 u1 where a: "infoLoop g cs (m, u) = (m1, u1)" by (cases "infoLoop g cs (m, u)")
  have ih: "u1 = (u \<or> (\<exists>i. i < length cs \<and> P i))"
    using snoc a by (simp add: P_def)
  have below: "Q i = P i" if "i < length cs" for i
    using that by (simp add: Q_def P_def nth_append)
  have top: "Q (length cs) = fieldDiffers g c m1"
    by (simp add: Q_def a)
  have "(\<exists>i. i < Suc (length cs) \<and> Q i) = ((\<exists>i. i < length cs \<and> Q i) \<or> Q (length cs))"
    by (auto simp: less_Suc_eq)
  also have "(\<exists>i. i < length cs \<and> Q i) = (\<exists>i. i < length cs \<and> P i)"
    using below by auto
  finally have split: "(\<exists>i. i < Suc (length cs) \<and> Q i) =
      ((\<exists>i. i < length cs \<and> P i) \<or> fieldDiffers g c m1)"
    by (simp add: top)
  have "snd (infoLoop g (cs @ [c]) (m, u)) = (u1 \<or> fieldDiffers g c m1)"
    by (simp add: infoLoop_snoc a infoChild_flag)
  also have "\<dots> = (u \<or> (\<exists>i. i < Suc (length cs) \<and> Q i))"
    using ih split by blast
  finally show ?case by (simp add: Q_def)
qed

lemma infoLoop_same:
  "\<forall>c \<in> set cs. \<not> fieldDiffers g c m \<Longrightarrow> infoLoop g cs (m, u) = (m, u)"
  by (induction cs) (simp_all add: infoChild_same)



lemma infoLoop_unflagged:
  "\<not> snd (infoLoop g cs (m, u)) \<Longrightarrow> fst (infoLoop g cs (m, u)) = m"
proof (induction cs rule: rev_induct)
  case Nil
  show ?case by simp
next
  case (snoc c cs)
  obtain m1 u1 where a: "infoLoop g cs (m, u) = (m1, u1)" by (cases "infoLoop g cs (m, u)")
  from snoc.prems have b: "\<not> u1" "\<not> fieldDiffers g c m1"
    by (simp_all add: infoLoop_snoc a infoChild_flag)
  from snoc.IH a b have "m1 = m" by simp
  with a b show ?case by (simp add: infoLoop_snoc infoChild_same)
qed

subsection \<open>The stanzas built\<close>

lemma result_ack_tree:
  "tree (iq_builder [(''type'', Some ''result''), (''to'', Some jid), (''id'', i)]) =
     Element ''iq''
       ([(''type'', ''result''), (''to'', jid)] @
        (case i of None \<Rightarrow> [] | Some x \<Rightarrow> [(''id'', x)]) @ [(''xmlns'', ''jabber:client'')]) []"
  by (simp add: tree_def iq_builder_def xmlElement_def split: option.splits)

lemma error_ack_tree:
  "tree (builder_up
           (builder_c ''service-unavailable'' [(''xmlns'', Some ''urn:ietf:params:xml:ns:xmpp-stanzas'')]
              (builder_c ''error'' [(''type'', Some ''cancel'')]
                 (builder_attrs [(''type'', ''error'')]
                    (iq_builder [(''type'', Some ''result''), (''to'', Some jid), (''id'', i)]))))) =
     Element ''iq''
       ([(''type'', ''error''), (''to'', jid)] @
        (case i of None \<Rightarrow> [] | Some x \<Rightarrow> [(''id'', x)]) @ [(''xmlns'', ''jabber:client'')])
       [ElementNode
          (Element ''error'' [(''type'', ''cancel'')]
             [ElementNode
                (Element ''service-unavailable''
                   [(''xmlns'', ''urn:ietf:params:xml:ns:xmpp-stanzas'')] [])])]"
  by (simp add: tree_def iq_builder_def xmlElement_def split: option.splits)

subsection \<open>The handler, path by path\<close>

lemma onIQ_ignored:
  "\<not> (hasJoined s \<and> getAttribute iq ''from'' = Some (jibriQueueJID s) \<and>
      find_tag iq ''jibri-queue'' \<noteq> []) \<Longrightarrow> onIQ g iq s = (None, s)"
  by (auto simp: onIQ_def Let_def)

lemma onIQ_info:
  assumes "hasJoined s" and "getAttribute iq ''from'' = Some (jibriQueueJID s)"
    and "find_tag iq ''jibri-queue'' \<noteq> []"
    and "getAttribute (hd (find_tag iq ''jibri-queue'')) ''action'' = Some ''info''"
    and "infoLoop g (children (hd (find_tag iq ''jibri-queue''))) (metrics s, False) = (m, u)"
  shows "onIQ g iq s =
     (Some True,
      s\<lparr>metrics := m,
        sentStanzas := sentStanzas s @
          [tree (iq_builder [(''type'', Some ''result''), (''to'', Some (jibriQueueJID s)),
                             (''id'', getAttribute iq ''id'')])],
        emitted := emitted s @ (if u then [MetricsEvent m] else [])\<rparr>)"
  using assms by (simp add: onIQ_def Let_def send_def emit_def)

lemma onIQ_token:
  assumes "hasJoined s" and "getAttribute iq ''from'' = Some (jibriQueueJID s)"
    and "find_tag iq ''jibri-queue'' \<noteq> []"
    and "getAttribute (hd (find_tag iq ''jibri-queue'')) ''action'' = Some ''token''"
  shows "onIQ g iq s =
     (Some True,
      s\<lparr>sentStanzas := sentStanzas s @
          [tree (iq_builder [(''type'', Some ''result''), (''to'', Some (jibriQueueJID s)),
                             (''id'', getAttribute iq ''id'')])],
        emitted := emitted s @
          [TokenEvent (getAttribute (hd (find_tag iq ''jibri-queue'')) ''value'')]\<rparr>)"
  using assms by (simp add: onIQ_def Let_def send_def emit_def)

lemma onIQ_other:
  assumes "hasJoined s" and "getAttribute iq ''from'' = Some (jibriQueueJID s)"
    and "find_tag iq ''jibri-queue'' \<noteq> []"
    and "getAttribute (hd (find_tag iq ''jibri-queue'')) ''action'' \<noteq> Some ''info''"
    and "getAttribute (hd (find_tag iq ''jibri-queue'')) ''action'' \<noteq> Some ''token''"
  shows "onIQ g iq s =
     (Some True,
      s\<lparr>sentStanzas := sentStanzas s @
          [tree (builder_up
           (builder_c ''service-unavailable'' [(''xmlns'', Some ''urn:ietf:params:xml:ns:xmpp-stanzas'')]
              (builder_c ''error'' [(''type'', Some ''cancel'')]
                 (builder_attrs [(''type'', ''error'')]
                    (iq_builder [(''type'', Some ''result''), (''to'', Some (jibriQueueJID s)),
                       (''id'', getAttribute iq ''id'')])))))]\<rparr>)"
  using assms by (simp add: onIQ_def Let_def send_def)

lemma example_joined_valid:
  "hasJoined exampleJoined \<and>
   getAttribute (examplePush ''jibri-queue@example.org'' as ns) ''from'' = Some (jibriQueueJID exampleJoined) \<and>
   find_tag (examplePush ''jibri-queue@example.org'' as ns) ''jibri-queue'' \<noteq> []"
  by (simp add: exampleJoined_def exampleQueue_def examplePush_def constructor_def join_def
      newPromise_def sendIQ_def iqSuccess_def getAttribute_def find_tag_def)

lemma onIQ_frame:
  "\<exists>m st em. snd (onIQ g iq s) = s\<lparr>metrics := m, sentStanzas := st, emitted := em\<rparr>"
proof (cases "hasJoined s \<and> getAttribute iq ''from'' = Some (jibriQueueJID s) \<and>
      find_tag iq ''jibri-queue'' \<noteq> []")
  case False
  then have "onIQ g iq s = (None, s)" by (rule onIQ_ignored)
  then have "snd (onIQ g iq s) = s\<lparr>metrics := metrics s, sentStanzas := sentStanzas s, emitted := emitted s\<rparr>"
    by simp
  then show ?thesis by blast
next
  case True
  let ?a = "getAttribute (hd (find_tag iq ''jibri-queue'')) ''action''"
  obtain m u where l: "infoLoop g (children (hd (find_tag iq ''jibri-queue''))) (metrics s, False) = (m, u)"
    by (cases "infoLoop g (children (hd (find_tag iq ''jibri-queue''))) (metrics s, False)")
  consider "?a = Some ''info''" | "?a = Some ''token''" | "?a \<noteq> Some ''info'' \<and> ?a \<noteq> Some ''token''"
    by blast
  then show ?thesis
  proof cases
    case 1
    with True l have "snd (onIQ g iq s) = s\<lparr>metrics := m,
        sentStanzas := sentStanzas s @
          [tree (iq_builder [(''type'', Some ''result''), (''to'', Some (jibriQueueJID s)),
                             (''id'', getAttribute iq ''id'')])],
        emitted := emitted s @ (if u then [MetricsEvent m] else [])\<rparr>"
      by (simp add: onIQ_info)
    then show ?thesis by blast
  next
    case 2
    with True have "snd (onIQ g iq s) = s\<lparr>metrics := metrics s,
        sentStanzas := sentStanzas s @
          [tree (iq_builder [(''type'', Some ''result''), (''to'', Some (jibriQueueJID s)),
                             (''id'', getAttribute iq ''id'')])],
        emitted := emitted s @
          [TokenEvent (getAttribute (hd (find_tag iq ''jibri-queue'')) ''value'')]\<rparr>"
      by (simp add: onIQ_token)
    then show ?thesis by blast
  next
    case 3
    with True have "snd (onIQ g iq s) = s\<lparr>metrics := metrics s,
        sentStanzas := sentStanzas s @
          [tree (builder_up
           (builder_c ''service-unavailable'' [(''xmlns'', Some ''urn:ietf:params:xml:ns:xmpp-stanzas'')]
              (builder_c ''error'' [(''type'', Some ''cancel'')]
                 (builder_attrs [(''type'', ''error'')]
                    (iq_builder [(''type'', Some ''result''), (''to'', Some (jibriQueueJID s)),
                       (''id'', getAttribute iq ''id'')])))))],
        emitted := emitted s\<rparr>"
      by (simp add: onIQ_other)
    then show ?thesis by blast
  qed
qed

subsection \<open>The membership flag, step by step\<close>

lemma hasJoined_join: "hasJoined (snd (join s)) = hasJoined s"
  by (simp add: join_def newPromise_def sendIQ_def)

lemma hasJoined_leave: "hasJoined (snd (leave s)) = hasJoined s"
  by (simp add: leave_def newPromise_def sendIQ_def)

lemma hasJoined_reject: "hasJoined (reject p r s) = hasJoined s"
  by (simp add: reject_def)

lemma hasJoined_iqError: "hasJoined (iqError n e s) = hasJoined s"
proof (cases "n < length (iqCallbacks s)")
  case False
  then show ?thesis by (simp add: iqError_def)
next
  case True
  show ?thesis
  proof (cases "iqCallbacks s ! n")
    case None
    with True show ?thesis by (simp add: iqError_def)
  next
    case (Some cb)
    with True show ?thesis by (cases cb) (simp_all add: iqError_def hasJoined_reject)
  qed
qed

lemma hasJoined_iqSuccess:
  "hasJoined (iqSuccess n s) =
     (hasJoined s \<or> (\<exists>p. n < length (iqCallbacks s) \<and> iqCallbacks s ! n = Some (JoinCallbacks p)))"
proof (cases "n < length (iqCallbacks s)")
  case False
  then show ?thesis by (simp add: iqSuccess_def)
next
  case True
  show ?thesis
  proof (cases "iqCallbacks s ! n")
    case None
    with True show ?thesis by (simp add: iqSuccess_def)
  next
    case (Some cb)
    with True show ?thesis by (cases cb) (simp_all add: iqSuccess_def)
  qed
qed

lemma hasJoined_deliver: "hasJoined (deliver g iq s) = hasJoined s"
proof -
  obtain m st em where "snd (onIQ g iq s) = s\<lparr>metrics := m, sentStanzas := st, emitted := em\<rparr>"
    using onIQ_frame by blast
  then show ?thesis by (simp add: deliver_def)
qed

lemma promises_deliver: "promises (deliver g iq s) = promises s"
proof -
  obtain m st em where "snd (onIQ g iq s) = s\<lparr>metrics := m, sentStanzas := st, emitted := em\<rparr>"
    using onIQ_frame by blast
  then show ?thesis by (simp add: deliver_def)
qed

lemma hasJoined_step:
  "hasJoined (step g i s) =
     (hasJoined s \<or>
      (\<exists>n p. i = IqSuccess n \<and> n < length (iqCallbacks s) \<and> iqCallbacks s ! n = Some (JoinCallbacks p)))"
  by (cases i)
    (simp_all add: hasJoined_join hasJoined_leave dispose_def on_def hasJoined_iqSuccess
      hasJoined_iqError hasJoined_deliver)

lemma run_snoc: "run g (ins @ [i]) s = step g i (run g ins s)"
  by (induction ins arbitrary: s) simp_all

lemma joined_run:
  "hasJoined (run g ins s) \<Longrightarrow> \<not> hasJoined s \<Longrightarrow>
     \<exists>k n p. k < length ins \<and> ins ! k = IqSuccess n \<and>
       n < length (iqCallbacks (run g (take k ins) s)) \<and>
       iqCallbacks (run g (take k ins) s) ! n = Some (JoinCallbacks p)"
proof (induction ins rule: rev_induct)
  case Nil
  then show ?case by simp
next
  case (snoc i ins)
  show ?case
  proof (cases "hasJoined (run g ins s)")
    case True
    with snoc obtain k n p where k: "k < length ins" "ins ! k = IqSuccess n"
        "n < length (iqCallbacks (run g (take k ins) s))"
        "iqCallbacks (run g (take k ins) s) ! n = Some (JoinCallbacks p)"
      by blast
    then have "k < length (ins @ [i]) \<and> (ins @ [i]) ! k = IqSuccess n \<and>
        n < length (iqCallbacks (run g (take k (ins @ [i])) s)) \<and>
        iqCallbacks (run g (take k (ins @ [i])) s) ! n = Some (JoinCallbacks p)"
      by (simp add: nth_append)
    then show ?thesis by blast
  next
    case False
    from snoc.prems(1) have "hasJoined (step g i (run g ins s))" by (simp add: run_snoc)
    with False obtain n p where "i = IqSuccess n" "n < length (iqCallbacks (run g ins s))"
        "iqCallbacks (run g ins s) ! n = Some (JoinCallbacks p)"
      by (auto simp: hasJoined_step)
    then have "length ins < length (ins @ [i]) \<and> (ins @ [i]) ! length ins = IqSuccess n \<and>
        n < length (iqCallbacks (run g (take (length ins) (ins @ [i])) s)) \<and>
        iqCallbacks (run g (take (length ins) (ins @ [i])) s) ! n = Some (JoinCallbacks p)"
      by simp
    then show ?thesis by blast
  qed
qed

subsection \<open>Requests and their callbacks\<close>

lemma join_request_is_join:
  "isJoinRequest (tree (builder_up
     (builder_c ''jibri-queue''
        [(''xmlns'', Some ''http://jitsi.org/protocol/jibri-queue''),
         (''action'', Some ''join''), (''room'', Some room)]
        (iq_builder [(''to'', Some jid), (''type'', Some ''set'')]))))"
  by (simp add: isJoinRequest_def tree_def iq_builder_def xmlElement_def getAttribute_def
      children_def)

lemma answers_join:
  "list_all2 answers (iqRequests s) (iqCallbacks s) \<Longrightarrow>
   list_all2 answers (iqRequests (snd (join s))) (iqCallbacks (snd (join s)))"
proof (cases "hasJoined s")
  case True
  assume "list_all2 answers (iqRequests s) (iqCallbacks s)"
  with True show ?thesis by (simp add: join_def newPromise_def)
next
  case False
  assume a: "list_all2 answers (iqRequests s) (iqCallbacks s)"
  have "list_all2 answers
      [tree (builder_up
         (builder_c ''jibri-queue''
            [(''xmlns'', Some ''http://jitsi.org/protocol/jibri-queue''),
             (''action'', Some ''join''), (''room'', Some (roomJID s))]
            (iq_builder [(''to'', Some (jibriQueueJID s)), (''type'', Some ''set'')])))]
      [Some (JoinCallbacks (length (promises s)))]"
    by (simp add: answers_def join_request_is_join)
  with a False show ?thesis
    by (simp add: join_def newPromise_def sendIQ_def list_all2_appendI)
qed

lemma answers_leave:
  "list_all2 answers (iqRequests s) (iqCallbacks s) \<Longrightarrow>
   list_all2 answers (iqRequests (snd (leave s))) (iqCallbacks (snd (leave s)))"
proof (cases "hasJoined s")
  case False
  assume "list_all2 answers (iqRequests s) (iqCallbacks s)"
  with False show ?thesis by (simp add: leave_def newPromise_def)
next
  case True
  assume a: "list_all2 answers (iqRequests s) (iqCallbacks s)"
  have "list_all2 answers [r] [Some (LeaveCallbacks (length (promises s)))]" for r
    by (simp add: answers_def)
  with a True show ?thesis
    by (simp add: leave_def newPromise_def sendIQ_def list_all2_appendI)
qed

lemma answers_answered:
  "list_all2 answers rs cbs \<Longrightarrow> list_all2 answers rs (cbs[n := None])"
proof (cases "n < length cbs")
  case False
  assume "list_all2 answers rs cbs"
  with False show ?thesis by (simp add: list_update_beyond)
next
  case True
  assume a: "list_all2 answers rs cbs"
  have "answers r None" for r by (simp add: answers_def)
  with a True show ?thesis
    by (auto simp: list_all2_conv_all_nth nth_list_update)
qed

lemma requests_iqSuccess:
  "iqRequests (iqSuccess n s) = iqRequests s \<and>
   (iqCallbacks (iqSuccess n s) = iqCallbacks s \<or>
    iqCallbacks (iqSuccess n s) = (iqCallbacks s)[n := None])"
proof (cases "n < length (iqCallbacks s)")
  case False
  then show ?thesis by (simp add: iqSuccess_def)
next
  case True
  show ?thesis
  proof (cases "iqCallbacks s ! n")
    case None
    with True show ?thesis by (simp add: iqSuccess_def)
  next
    case (Some cb)
    with True show ?thesis by (cases cb) (simp_all add: iqSuccess_def)
  qed
qed

lemma requests_iqError:
  "iqRequests (iqError n e s) = iqRequests s \<and>
   (iqCallbacks (iqError n e s) = iqCallbacks s \<or>
    iqCallbacks (iqError n e s) = (iqCallbacks s)[n := None])"
proof (cases "n < length (iqCallbacks s)")
  case False
  then show ?thesis by (simp add: iqError_def)
next
  case True
  show ?thesis
  proof (cases "iqCallbacks s ! n")
    case None
    with True show ?thesis by (simp add: iqError_def)
  next
    case (Some cb)
    with True show ?thesis by (cases cb) (simp_all add: iqError_def reject_def)
  qed
qed

lemma requests_deliver:
  "iqRequests (deliver g iq s) = iqRequests s \<and> iqCallbacks (deliver g iq s) = iqCallbacks s"
proof -
  obtain m st em where "snd (onIQ g iq s) = s\<lparr>metrics := m, sentStanzas := st, emitted := em\<rparr>"
    using onIQ_frame by blast
  then show ?thesis by (simp add: deliver_def)
qed

lemma answers_step:
  "list_all2 answers (iqRequests s) (iqCallbacks s) \<Longrightarrow>
   list_all2 answers (iqRequests (step g i s)) (iqCallbacks (step g i s))"
proof (cases i)
  case Join
  assume "list_all2 answers (iqRequests s) (iqCallbacks s)"
  with Join show ?thesis by (simp add: answers_join)
next
  case Leave
  assume "list_all2 answers (iqRequests s) (iqCallbacks s)"
  with Leave show ?thesis by (simp add: answers_leave)
next
  case Dispose
  assume "list_all2 answers (iqRequests s) (iqCallbacks s)"
  with Dispose show ?thesis by (simp add: dispose_def)
next
  case (On name l)
  assume "list_all2 answers (iqRequests s) (iqCallbacks s)"
  with On show ?thesis by (simp add: on_def)
next
  case (IqSuccess n)
  assume a: "list_all2 answers (iqRequests s) (iqCallbacks s)"
  from a have "list_all2 answers (iqRequests s) ((iqCallbacks s)[n := None])"
    by (rule answers_answered)
  with a requests_iqSuccess [of n s] IqSuccess show ?thesis by auto
next
  case (IqError n e)
  assume a: "list_all2 answers (iqRequests s) (iqCallbacks s)"
  from a have "list_all2 answers (iqRequests s) ((iqCallbacks s)[n := None])"
    by (rule answers_answered)
  with a requests_iqError [of n e s] IqError show ?thesis by auto
next
  case (Deliver iq)
  assume "list_all2 answers (iqRequests s) (iqCallbacks s)"
  with Deliver show ?thesis by (simp add: requests_deliver)
qed

lemma answers_run:
  "list_all2 answers (iqRequests s) (iqCallbacks s) \<Longrightarrow>
   list_all2 answers (iqRequests (run g ins s)) (iqCallbacks (run g ins s))"
  by (induction ins arbitrary: s) (simp_all add: answers_step)

lemma answers_reachable:
  "list_all2 answers (iqRequests (run g ins (constructor c jid room)))
     (iqCallbacks (run g ins (constructor c jid room)))"
  by (rule answers_run) (simp add: constructor_def)

lemma join_callbacks_of_join_request:
  assumes "s = run g ins (constructor c jid room)"
    and "n < length (iqCallbacks s)" and "iqCallbacks s ! n = Some (JoinCallbacks p)"
  shows "n < length (iqRequests s) \<and> isJoinRequest (iqRequests s ! n)"
proof -
  have a: "list_all2 answers (iqRequests s) (iqCallbacks s)"
    unfolding assms(1) by (rule answers_reachable)
  then have l: "length (iqRequests s) = length (iqCallbacks s)" by (rule list_all2_lengthD)
  from a assms(2) have "answers (iqRequests s ! n) (iqCallbacks s ! n)"
    by (simp add: list_all2_conv_all_nth)
  with assms(3) have "isJoinRequest (iqRequests s ! n)" by (simp add: answers_def)
  with l assms(2) show ?thesis by simp
qed

subsection \<open>The promises, step by step\<close>

lemma promises_join:
  "promises (snd (join s)) =
     promises s @ [if hasJoined s then Rejected (Error ''The queue is already joined!'') else Pending]"
  by (simp add: join_def newPromise_def sendIQ_def)

lemma promises_leave:
  "promises (snd (leave s)) =
     promises s @ [if hasJoined s then Pending else Rejected (Error ''There's no queue to leave!'')]"
  by (simp add: leave_def newPromise_def sendIQ_def)

lemma promises_iqSuccess: "promises (iqSuccess n s) = promises s"
proof (cases "n < length (iqCallbacks s)")
  case False
  then show ?thesis by (simp add: iqSuccess_def)
next
  case True
  show ?thesis
  proof (cases "iqCallbacks s ! n")
    case None
    with True show ?thesis by (simp add: iqSuccess_def)
  next
    case (Some cb)
    with True show ?thesis by (cases cb) (simp_all add: iqSuccess_def)
  qed
qed

lemma unresolved_reject:
  "Resolved \<notin> set (promises s) \<Longrightarrow> Resolved \<notin> set (promises (reject p r s))"
proof -
  assume a: "Resolved \<notin> set (promises s)"
  have "set ((promises s)[p := Rejected r]) \<subseteq> insert (Rejected r) (set (promises s))"
    by (rule set_update_subset_insert)
  with a have "Resolved \<notin> set ((promises s)[p := Rejected r])" by auto
  with a show ?thesis by (simp add: reject_def)
qed

lemma unresolved_iqError:
  "Resolved \<notin> set (promises s) \<Longrightarrow> Resolved \<notin> set (promises (iqError n e s))"
proof (cases "n < length (iqCallbacks s)")
  case False
  assume "Resolved \<notin> set (promises s)"
  with False show ?thesis by (simp add: iqError_def)
next
  case True
  assume a: "Resolved \<notin> set (promises s)"
  show ?thesis
  proof (cases "iqCallbacks s ! n")
    case None
    with True a show ?thesis by (simp add: iqError_def)
  next
    case (Some cb)
    from a have "Resolved \<notin> set (promises (s\<lparr>iqCallbacks := (iqCallbacks s)[n := None]\<rparr>))" by simp
    then have "Resolved \<notin> set (promises (reject p (TransportError e)
        (s\<lparr>iqCallbacks := (iqCallbacks s)[n := None]\<rparr>)))" for p
      by (rule unresolved_reject)
    with True Some show ?thesis by (cases cb) (simp_all add: iqError_def)
  qed
qed

lemma unresolved_step:
  "Resolved \<notin> set (promises s) \<Longrightarrow> Resolved \<notin> set (promises (step g i s))"
  by (cases i)
    (simp_all add: promises_join promises_leave dispose_def on_def promises_iqSuccess
      unresolved_iqError promises_deliver)

lemma unresolved_run:
  "Resolved \<notin> set (promises s) \<Longrightarrow> Resolved \<notin> set (promises (run g ins s))"
  by (induction ins arbitrary: s) (simp_all add: unresolved_step)

subsection \<open>Acknowledgments\<close>

text \<open>
  C3, as the code has it. The handler sends no acknowledgment on two paths: when the
  queue is not joined, and when the message fails validation (the sender is not the
  queue, or there is no \<open>jibri-queue\<close> element); on both it returns \<open>undefined\<close> and changes
  nothing. Every message that arrives while joined and passes validation gets exactly
  one acknowledgment, an \<open>iq\<close> addressed to the sender with the id of the message, and
  the handler returns \<open>true\<close>.
\<close>

theorem onIQ_acknowledges_when_validated:
  "(hasJoined s \<and> getAttribute iq ''from'' = Some (jibriQueueJID s) \<and>
      find_tag iq ''jibri-queue'' \<noteq> [] \<longrightarrow>
      fst (onIQ g iq s) = Some True \<and>
      (\<exists>ack. sentStanzas (snd (onIQ g iq s)) = sentStanzas s @ [ack] \<and> tagName ack = ''iq'' \<and>
         getAttribute ack ''to'' = getAttribute iq ''from'' \<and>
         getAttribute ack ''id'' = getAttribute iq ''id'')) \<and>
   (\<not> (hasJoined s \<and> getAttribute iq ''from'' = Some (jibriQueueJID s) \<and>
      find_tag iq ''jibri-queue'' \<noteq> []) \<longrightarrow> onIQ g iq s = (None, s))"
proof (intro conjI impI)
  assume "\<not> (hasJoined s \<and> getAttribute iq ''from'' = Some (jibriQueueJID s) \<and>
      find_tag iq ''jibri-queue'' \<noteq> [])"
  then show "onIQ g iq s = (None, s)" by (rule onIQ_ignored)
next
  assume v: "hasJoined s \<and> getAttribute iq ''from'' = Some (jibriQueueJID s) \<and>
      find_tag iq ''jibri-queue'' \<noteq> []"
  let ?a = "getAttribute (hd (find_tag iq ''jibri-queue'')) ''action''"
  obtain m u where l: "infoLoop g (children (hd (find_tag iq ''jibri-queue''))) (metrics s, False) = (m, u)"
    by (cases "infoLoop g (children (hd (find_tag iq ''jibri-queue''))) (metrics s, False)")
  consider "?a = Some ''info''" | "?a = Some ''token''" | "?a \<noteq> Some ''info'' \<and> ?a \<noteq> Some ''token''"
    by blast
  then have "fst (onIQ g iq s) = Some True \<and>
      (\<exists>ack. sentStanzas (snd (onIQ g iq s)) = sentStanzas s @ [ack] \<and> tagName ack = ''iq'' \<and>
         getAttribute ack ''to'' = getAttribute iq ''from'' \<and>
         getAttribute ack ''id'' = getAttribute iq ''id'')"
  proof cases
    case 1
    with v l show ?thesis
      by (simp add: onIQ_info result_ack_tree getAttribute_def split: option.splits)
  next
    case 2
    with v show ?thesis
      by (simp add: onIQ_token result_ack_tree getAttribute_def split: option.splits)
  next
    case 3
    with v show ?thesis
      by (simp add: onIQ_other error_ack_tree getAttribute_def split: option.splits)
  qed
  then show "fst (onIQ g iq s) = Some True"
    and "\<exists>ack. sentStanzas (snd (onIQ g iq s)) = sentStanzas s @ [ack] \<and> tagName ack = ''iq'' \<and>
         getAttribute ack ''to'' = getAttribute iq ''from'' \<and>
         getAttribute ack ''id'' = getAttribute iq ''id''"
    by blast+
qed

theorem onIQ_acknowledges_when_validated_witness:
  "fst (onIQ textNodes (examplePush ''jibri-queue@example.org'' [(''action'', ''token''), (''value'', ''abc'')] [])
       exampleJoined) = Some True \<and>
   onIQ textNodes (examplePush ''jibri-queue@example.org/service'' [(''action'', ''token''), (''value'', ''abc'')] [])
       exampleJoined = (None, exampleJoined)"
proof -
  have n: "\<not> (hasJoined exampleJoined \<and>
      getAttribute (examplePush ''jibri-queue@example.org/service'' [(''action'', ''token''), (''value'', ''abc'')] []) ''from''
        = Some (jibriQueueJID exampleJoined) \<and>
      find_tag (examplePush ''jibri-queue@example.org/service'' [(''action'', ''token''), (''value'', ''abc'')] [])
        ''jibri-queue'' \<noteq> [])"
    by code_simp
  show ?thesis
    using example_joined_valid [of "[(''action'', ''token''), (''value'', ''abc'')]" "[]"] n
      onIQ_acknowledges_when_validated [of exampleJoined
        "examplePush ''jibri-queue@example.org'' [(''action'', ''token''), (''value'', ''abc'')] []" textNodes]
      onIQ_acknowledges_when_validated [of exampleJoined
        "examplePush ''jibri-queue@example.org/service'' [(''action'', ''token''), (''value'', ''abc'')] []" textNodes]
    by blast
qed

text \<open>
  C3 as stated fails: the queue is joined, the handler runs, and a message whose sender
  is the queue's address with a resource (the handler is registered for the bare
  address), or one from the queue whose payload in the namespace is not a \<open>jibri-queue\<close>
  element, is dropped without an acknowledgment and without being reported as handled.
\<close>

theorem joined_stray_message_counterexample:
  "hasJoined exampleJoined \<and>
   onIQ textNodes exampleFromResource exampleJoined = (None, exampleJoined) \<and>
   sentStanzas (snd (onIQ textNodes exampleFromResource exampleJoined)) = [] \<and>
   onIQ textNodes exampleNoPayload exampleJoined = (None, exampleJoined) \<and>
   sentStanzas (snd (onIQ textNodes exampleNoPayload exampleJoined)) = []"
  by code_simp

subsection \<open>Info pushes\<close>

text \<open>
  C4, as the code has it. For an \<open>info\<close> push that arrives while joined and passes validation, with children
  \<open>cs\<close>: the metrics afterwards are what the loop leaves; the turn for child \<open>i\<close> overwrites
  \<open>position\<close> (for a \<open>position\<close> child) or \<open>estimatedTimeLeft\<close> (for a \<open>time\<close> child) with the
  child's text exactly when that text differs from the value stored when its turn
  comes, and otherwise leaves the snapshot as it is; one \<open>metrics\<close> event carrying the
  final snapshot is emitted if and only if some turn overwrote a field, and none
  otherwise; a push that changes the snapshot always emits the event; and when no
  child differs from the stored metrics, the push, and the same push once more, change
  no metric and emit nothing.
\<close>

theorem info_push_overwrites_and_emits_on_difference:
  fixes s :: "'e JibriQueue"
  assumes "hasJoined s" and "getAttribute iq ''from'' = Some (jibriQueueJID s)"
    and "find_tag iq ''jibri-queue'' \<noteq> []"
    and "getAttribute (hd (find_tag iq ''jibri-queue'')) ''action'' = Some ''info''"
    and "cs = children (hd (find_tag iq ''jibri-queue''))"
  shows
    "metrics (snd (onIQ g iq s)) = fst (infoLoop g cs (metrics s, False)) \<and>
     (\<forall>i m. i < length cs \<and> m = fst (infoLoop g (take i cs) (metrics s, False)) \<longrightarrow>
        fst (infoLoop g (take (Suc i) cs) (metrics s, False)) =
          (if tagName (cs ! i) = ''position'' \<and> Some (g (cs ! i)) \<noteq> position m
             then m\<lparr>position := Some (g (cs ! i))\<rparr>
           else if tagName (cs ! i) = ''time'' \<and> Some (g (cs ! i)) \<noteq> estimatedTimeLeft m
             then m\<lparr>estimatedTimeLeft := Some (g (cs ! i))\<rparr>
           else m)) \<and>
     emitted (snd (onIQ g iq s)) = emitted s @
       (if \<exists>i. i < length cs \<and>
              fieldDiffers g (cs ! i) (fst (infoLoop g (take i cs) (metrics s, False)))
        then [MetricsEvent (metrics (snd (onIQ g iq s)))] else []) \<and>
     (metrics (snd (onIQ g iq s)) \<noteq> metrics s \<longrightarrow>
        emitted (snd (onIQ g iq s)) = emitted s @ [MetricsEvent (metrics (snd (onIQ g iq s)))]) \<and>
     ((\<forall>c \<in> set cs. \<not> fieldDiffers g c (metrics s)) \<longrightarrow>
        metrics (snd (onIQ g iq s)) = metrics s \<and> emitted (snd (onIQ g iq s)) = emitted s \<and>
        emitted (snd (onIQ g iq (snd (onIQ g iq s)))) = emitted s)"
proof -
  obtain m u where l: "infoLoop g cs (metrics s, False) = (m, u)"
    by (cases "infoLoop g cs (metrics s, False)")
  have r: "onIQ g iq s =
     (Some True,
      s\<lparr>metrics := m,
        sentStanzas := sentStanzas s @
          [tree (iq_builder [(''type'', Some ''result''), (''to'', Some (jibriQueueJID s)),
                             (''id'', getAttribute iq ''id'')])],
        emitted := emitted s @ (if u then [MetricsEvent m] else [])\<rparr>)"
    using assms l by (simp add: onIQ_info)
  have c1: "metrics (snd (onIQ g iq s)) = fst (infoLoop g cs (metrics s, False))"
    by (simp add: r l)
  have c2: "fst (infoLoop g (take (Suc i) cs) (metrics s, False)) =
          (if tagName (cs ! i) = ''position'' \<and> Some (g (cs ! i)) \<noteq> position k
             then k\<lparr>position := Some (g (cs ! i))\<rparr>
           else if tagName (cs ! i) = ''time'' \<and> Some (g (cs ! i)) \<noteq> estimatedTimeLeft k
             then k\<lparr>estimatedTimeLeft := Some (g (cs ! i))\<rparr>
           else k)"
    if "i < length cs" and k: "k = fst (infoLoop g (take i cs) (metrics s, False))" for i k
  proof -
    obtain k' v where p: "infoLoop g (take i cs) (metrics s, False) = (k', v)"
      by (cases "infoLoop g (take i cs) (metrics s, False)")
    with k have "k' = k" by simp
    with p that(1) show ?thesis
      by (simp add: take_Suc_conv_app_nth infoLoop_snoc infoChild_eq)
  qed
  have u: "u = (\<exists>i. i < length cs \<and>
              fieldDiffers g (cs ! i) (fst (infoLoop g (take i cs) (metrics s, False))))"
    using infoLoop_flag [of g cs "metrics s" False] l by simp
  have c3: "emitted (snd (onIQ g iq s)) = emitted s @
       (if \<exists>i. i < length cs \<and>
              fieldDiffers g (cs ! i) (fst (infoLoop g (take i cs) (metrics s, False)))
        then [MetricsEvent (metrics (snd (onIQ g iq s)))] else [])"
    unfolding u [symmetric] by (simp add: r)
  have c4: "emitted (snd (onIQ g iq s)) = emitted s @ [MetricsEvent (metrics (snd (onIQ g iq s)))]"
    if "metrics (snd (onIQ g iq s)) \<noteq> metrics s"
  proof -
    from that have "m \<noteq> metrics s" by (simp add: r)
    then have u using infoLoop_unflagged [of g cs "metrics s" False] l by auto
    then show ?thesis by (simp add: r)
  qed
  have c5: "metrics (snd (onIQ g iq s)) = metrics s \<and> emitted (snd (onIQ g iq s)) = emitted s \<and>
        emitted (snd (onIQ g iq (snd (onIQ g iq s)))) = emitted s"
    if same: "\<forall>c \<in> set cs. \<not> fieldDiffers g c (metrics s)"
  proof -
    from same have "infoLoop g cs (metrics s, False) = (metrics s, False)"
      by (rule infoLoop_same)
    with l have mu: "m = metrics s" "\<not> u" by simp_all
    let ?s' = "snd (onIQ g iq s)"
    have s': "?s' = s\<lparr>sentStanzas := sentStanzas s @
          [tree (iq_builder [(''type'', Some ''result''), (''to'', Some (jibriQueueJID s)),
                             (''id'', getAttribute iq ''id'')])]\<rparr>"
      by (simp add: r mu)
    have l': "infoLoop g (children (hd (find_tag iq ''jibri-queue''))) (metrics ?s', False) = (metrics s, False)"
      using l mu assms(5) by (simp add: s')
    have "hasJoined ?s'" and "getAttribute iq ''from'' = Some (jibriQueueJID ?s')"
      using assms by (simp_all add: s')
    then have "onIQ g iq ?s' = (Some True,
      ?s'\<lparr>metrics := metrics s,
        sentStanzas := sentStanzas ?s' @
          [tree (iq_builder [(''type'', Some ''result''), (''to'', Some (jibriQueueJID ?s')),
                             (''id'', getAttribute iq ''id'')])],
        emitted := emitted ?s' @ (if False then [MetricsEvent (metrics s)] else [])\<rparr>)"
      using assms(3,4) l' by (rule onIQ_info)
    then have "emitted (snd (onIQ g iq ?s')) = emitted ?s'" by simp
    then show ?thesis by (simp add: s' r mu)
  qed
  from c1 c2 c3 c4 c5 show ?thesis by blast
qed

theorem info_push_overwrites_and_emits_on_difference_witness:
  "hasJoined exampleInformed \<and>
   emitted exampleInformed = [MetricsEvent \<lparr>position = Some ''5'', estimatedTimeLeft = Some ''30''\<rparr>] \<and>
   metrics (snd (onIQ textNodes exampleInfo exampleInformed)) = metrics exampleInformed \<and>
   emitted (snd (onIQ textNodes exampleInfo exampleInformed)) = emitted exampleInformed \<and>
   emitted (snd (onIQ textNodes exampleInfo (snd (onIQ textNodes exampleInfo exampleInformed))))
     = emitted exampleInformed"
proof -
  let ?cs = "[Element ''position'' [] [TextNode ''5''], Element ''time'' [] [TextNode ''30'']]"
  have h1: "hasJoined exampleInformed" by code_simp
  have h2: "getAttribute exampleInfo ''from'' = Some (jibriQueueJID exampleInformed)" by code_simp
  have h3: "find_tag exampleInfo ''jibri-queue'' \<noteq> []" by code_simp
  have h4: "getAttribute (hd (find_tag exampleInfo ''jibri-queue'')) ''action'' = Some ''info''"
    by code_simp
  have h5: "?cs = children (hd (find_tag exampleInfo ''jibri-queue''))" by code_simp
  have same: "\<forall>c \<in> set ?cs. \<not> fieldDiffers textNodes c (metrics exampleInformed)" by code_simp
  have e: "emitted exampleInformed
      = [MetricsEvent \<lparr>position = Some ''5'', estimatedTimeLeft = Some ''30''\<rparr>]" by code_simp
  from info_push_overwrites_and_emits_on_difference [OF h1 h2 h3 h4 h5, of textNodes] same h1 e
  show ?thesis by blast
qed

text \<open>
  C4 as stated fails where "changed" means changed against the snapshot stored before
  the push: with position \<open>5\<close> and time left \<open>30\<close> stored, a push whose children are
  \<open>position\<close> \<open>9\<close> and then \<open>position\<close> \<open>5\<close> overwrites the position twice, leaves the snapshot
  equal to the one before, and emits a \<open>metrics\<close> event.
\<close>

theorem info_push_event_without_net_change_counterexample:
  "hasJoined exampleInformed \<and>
   getAttribute exampleThereAndBack ''from'' = Some (jibriQueueJID exampleInformed) \<and>
   getAttribute (hd (find_tag exampleThereAndBack ''jibri-queue'')) ''action'' = Some ''info'' \<and>
   metrics exampleInformed = \<lparr>position = Some ''5'', estimatedTimeLeft = Some ''30''\<rparr> \<and>
   metrics (snd (onIQ textNodes exampleThereAndBack exampleInformed)) = metrics exampleInformed \<and>
   emitted (snd (onIQ textNodes exampleThereAndBack exampleInformed)) =
     emitted exampleInformed @
       [MetricsEvent \<lparr>position = Some ''5'', estimatedTimeLeft = Some ''30''\<rparr>]"
  by code_simp





subsection \<open>Token pushes\<close>



subsection \<open>Unrecognised actions\<close>

text \<open>
  C6. A message that arrives while joined and passes validation, and whose \<open>action\<close> is
  neither \<open>info\<close> nor \<open>token\<close> (or is missing), gets exactly one acknowledgment: an \<open>iq\<close> of
  type \<open>error\<close> to the sender, with the id of the message, holding an \<open>error\<close> element of
  type \<open>cancel\<close> with a \<open>service-unavailable\<close> child in the namespace
  \<open>urn:ietf:params:xml:ns:xmpp-stanzas\<close>. No event is emitted and the metrics stay.
\<close>

theorem unrecognised_action_gets_error_ack:
  fixes s :: "'e JibriQueue"
  assumes "hasJoined s" and "getAttribute iq ''from'' = Some (jibriQueueJID s)"
    and "find_tag iq ''jibri-queue'' \<noteq> []"
    and "getAttribute (hd (find_tag iq ''jibri-queue'')) ''action'' \<noteq> Some ''info''"
    and "getAttribute (hd (find_tag iq ''jibri-queue'')) ''action'' \<noteq> Some ''token''"
  shows
    "onIQ g iq s =
       (Some True,
        s\<lparr>sentStanzas := sentStanzas s @
           [Element ''iq''
              ([(''type'', ''error''), (''to'', jibriQueueJID s)] @
               (case getAttribute iq ''id'' of None \<Rightarrow> [] | Some x \<Rightarrow> [(''id'', x)]) @
               [(''xmlns'', ''jabber:client'')])
              [ElementNode
                 (Element ''error'' [(''type'', ''cancel'')]
                    [ElementNode
                       (Element ''service-unavailable''
                          [(''xmlns'', ''urn:ietf:params:xml:ns:xmpp-stanzas'')] [])])]]\<rparr>) \<and>
     length (sentStanzas (snd (onIQ g iq s))) = Suc (length (sentStanzas s)) \<and>
     getAttribute (last (sentStanzas (snd (onIQ g iq s)))) ''type'' = Some ''error'' \<and>
     emitted (snd (onIQ g iq s)) = emitted s \<and>
     metrics (snd (onIQ g iq s)) = metrics s"
  using assms by (simp add: onIQ_other error_ack_tree getAttribute_def)

theorem unrecognised_action_gets_error_ack_witness:
  "hasJoined exampleJoined \<and>
   sentStanzas (snd (onIQ textNodes exampleUnknown exampleJoined)) =
     [Element ''iq''
        [(''type'', ''error''), (''to'', ''jibri-queue@example.org''), (''id'', ''42''),
         (''xmlns'', ''jabber:client'')]
        [ElementNode
           (Element ''error'' [(''type'', ''cancel'')]
              [ElementNode
                 (Element ''service-unavailable''
                    [(''xmlns'', ''urn:ietf:params:xml:ns:xmpp-stanzas'')] [])])]] \<and>
   emitted (snd (onIQ textNodes exampleUnknown exampleJoined)) = []"
proof -
  have h1: "hasJoined exampleJoined" by code_simp
  have h2: "getAttribute exampleUnknown ''from'' = Some (jibriQueueJID exampleJoined)" by code_simp
  have h3: "find_tag exampleUnknown ''jibri-queue'' \<noteq> []" by code_simp
  have h4: "getAttribute (hd (find_tag exampleUnknown ''jibri-queue'')) ''action'' \<noteq> Some ''info''"
    by code_simp
  have h5: "getAttribute (hd (find_tag exampleUnknown ''jibri-queue'')) ''action'' \<noteq> Some ''token''"
    by code_simp
  have e: "sentStanzas exampleJoined = [] \<and> emitted exampleJoined = [] \<and>
      jibriQueueJID exampleJoined = ''jibri-queue@example.org'' \<and>
      getAttribute exampleUnknown ''id'' = Some ''42''"
    by code_simp
  from unrecognised_action_gets_error_ack [OF h1 h2 h3 h4 h5, of textNodes] h1 e
  show ?thesis by simp
qed

subsection \<open>join and leave in the wrong state\<close>

text \<open>
  C5. \<open>join()\<close> on a joined queue returns a promise that is already rejected with the
  error \<open>The queue is already joined!\<close>, and \<open>leave()\<close> on a queue that is not joined one
  already rejected with \<open>There's no queue to leave!\<close>; neither hands a request or a stanza
  to the connection, and nothing else of the state changes.
\<close>

theorem join_leave_rejected_without_request:
  fixes s :: "'e JibriQueue"
  shows
    "(hasJoined s \<longrightarrow>
        join s = (length (promises s),
                  s\<lparr>promises := promises s @ [Rejected (Error ''The queue is already joined!'')]\<rparr>) \<and>
        iqRequests (snd (join s)) = iqRequests s \<and> sentStanzas (snd (join s)) = sentStanzas s \<and>
        promises (snd (join s)) ! fst (join s) = Rejected (Error ''The queue is already joined!'')) \<and>
     (\<not> hasJoined s \<longrightarrow>
        leave s = (length (promises s),
                   s\<lparr>promises := promises s @ [Rejected (Error ''There's no queue to leave!'')]\<rparr>) \<and>
        iqRequests (snd (leave s)) = iqRequests s \<and> sentStanzas (snd (leave s)) = sentStanzas s \<and>
        promises (snd (leave s)) ! fst (leave s) = Rejected (Error ''There's no queue to leave!''))"
  by (simp add: join_def leave_def newPromise_def)

theorem join_leave_rejected_without_request_witness:
  "hasJoined exampleJoined \<and>
   promises (snd (join exampleJoined)) = [Pending, Rejected (Error ''The queue is already joined!'')] \<and>
   iqRequests (snd (join exampleJoined)) = iqRequests exampleJoined \<and>
   \<not> hasJoined exampleQueue \<and>
   promises (snd (leave exampleQueue)) = [Rejected (Error ''There's no queue to leave!'')] \<and>
   iqRequests (snd (leave exampleQueue)) = []"
proof -
  have h1: "hasJoined exampleJoined" by code_simp
  have h2: "\<not> hasJoined exampleQueue" by code_simp
  have e: "promises exampleJoined = [Pending] \<and> promises exampleQueue = [] \<and> iqRequests exampleQueue = []"
    by code_simp
  from join_leave_rejected_without_request [of exampleJoined]
    join_leave_rejected_without_request [of exampleQueue] h1 h2 e
  show ?thesis by simp
qed

subsection \<open>The membership flag\<close>

text \<open>
  C7. A new instance is not joined, and a step takes the flag from not joined to joined
  only when it is the connection calling the success callback of a join request that
  is still waiting for its answer; that callback does set the flag. No call of
  \<open>join\<close>, \<open>leave\<close>, \<open>dispose\<close> or \<open>on\<close>, no error answer and no incoming IQ sets it. In
  a state reached from the construction, the request so answered is a join request that
  was handed to \<open>sendIQ\<close>.
\<close>

theorem only_join_acknowledgment_sets_joined:
  fixes s :: "'e JibriQueue"
  shows
    "\<not> hasJoined (constructor c jid room :: 'e JibriQueue) \<and>
     (\<not> hasJoined s \<and> hasJoined (step g i s) \<longrightarrow>
        (\<exists>n p. i = IqSuccess n \<and> n < length (iqCallbacks s) \<and>
               iqCallbacks s ! n = Some (JoinCallbacks p))) \<and>
     (n < length (iqCallbacks s) \<and> iqCallbacks s ! n = Some (JoinCallbacks p) \<longrightarrow>
        hasJoined (step g (IqSuccess n) s)) \<and>
     (s = run g ins (constructor c jid room) \<and> \<not> hasJoined s \<and> hasJoined (step g i s) \<longrightarrow>
        (\<exists>n. i = IqSuccess n \<and> n < length (iqRequests s) \<and> isJoinRequest (iqRequests s ! n)))"
proof (intro conjI impI)
  show "\<not> hasJoined (constructor c jid room :: 'e JibriQueue)" by (simp add: constructor_def)
next
  assume "\<not> hasJoined s \<and> hasJoined (step g i s)"
  then show "\<exists>n p. i = IqSuccess n \<and> n < length (iqCallbacks s) \<and>
               iqCallbacks s ! n = Some (JoinCallbacks p)"
    by (auto simp: hasJoined_step)
next
  assume "n < length (iqCallbacks s) \<and> iqCallbacks s ! n = Some (JoinCallbacks p)"
  then show "hasJoined (step g (IqSuccess n) s)" by (auto simp: hasJoined_iqSuccess)
next
  assume a: "s = run g ins (constructor c jid room) \<and> \<not> hasJoined s \<and> hasJoined (step g i s)"
  then obtain k q where k: "i = IqSuccess k" "k < length (iqCallbacks s)"
      "iqCallbacks s ! k = Some (JoinCallbacks q)"
    by (auto simp: hasJoined_step)
  from a have "s = run g ins (constructor c jid room)" by simp
  from join_callbacks_of_join_request [OF this k(2,3)] k(1)
  show "\<exists>n. i = IqSuccess n \<and> n < length (iqRequests s) \<and> isJoinRequest (iqRequests s ! n)"
    by blast
qed

theorem only_join_acknowledgment_sets_joined_witness:
  "\<not> hasJoined (step textNodes Join exampleQueue) \<and>
   iqCallbacks (step textNodes Join exampleQueue) = [Some (JoinCallbacks 0)] \<and>
   isJoinRequest (iqRequests (step textNodes Join exampleQueue) ! 0) \<and>
   hasJoined (step textNodes (IqSuccess 0) (step textNodes Join exampleQueue)) \<and>
   \<not> hasJoined (step textNodes (Deliver exampleInfo) (step textNodes Join exampleQueue))"
proof -
  let ?s = "step textNodes Join exampleQueue"
  have h: "\<not> hasJoined ?s" "iqCallbacks ?s = [Some (JoinCallbacks 0)]"
    "isJoinRequest (iqRequests ?s ! 0)" by code_simp+
  then have c: "0 < length (iqCallbacks ?s) \<and> iqCallbacks ?s ! 0 = Some (JoinCallbacks 0)" by simp
  from only_join_acknowledgment_sets_joined [of 0 "''q''" "''r''" ?s textNodes "IqSuccess 0" 0 0]
    only_join_acknowledgment_sets_joined [of 0 "''q''" "''r''" ?s textNodes "Deliver exampleInfo" 0 0]
    h c
  show ?thesis by auto
qed

text \<open>
  C2, as the code has it. In every state an instance can reach from its construction,
  the flag is joined only if, earlier in the run, the connection answered a waiting join
  request with success. \<open>dispose()\<close> leaves the flag as it is.
\<close>

theorem joined_only_after_join_acknowledgment:
  fixes s :: "'e JibriQueue"
  shows
    "(hasJoined (run g ins (constructor c jid room :: 'e JibriQueue)) \<longrightarrow>
        (\<exists>k n p. k < length ins \<and> ins ! k = IqSuccess n \<and>
           n < length (iqCallbacks (run g (take k ins) (constructor c jid room :: 'e JibriQueue))) \<and>
           iqCallbacks (run g (take k ins) (constructor c jid room :: 'e JibriQueue)) ! n
             = Some (JoinCallbacks p))) \<and>
     hasJoined (dispose s) = hasJoined s"
proof
  have "\<not> hasJoined (constructor c jid room :: 'e JibriQueue)" by (simp add: constructor_def)
  then show "hasJoined (run g ins (constructor c jid room :: 'e JibriQueue)) \<longrightarrow>
        (\<exists>k n p. k < length ins \<and> ins ! k = IqSuccess n \<and>
           n < length (iqCallbacks (run g (take k ins) (constructor c jid room :: 'e JibriQueue))) \<and>
           iqCallbacks (run g (take k ins) (constructor c jid room :: 'e JibriQueue)) ! n
             = Some (JoinCallbacks p))"
    using joined_run by blast
  show "hasJoined (dispose s) = hasJoined s" by (simp add: dispose_def)
qed

theorem joined_only_after_join_acknowledgment_witness:
  "hasJoined (run textNodes [Join, IqSuccess 0, Dispose] exampleQueue) \<and>
   (\<exists>k n p. k < length [Join, IqSuccess 0, Dispose :: string input] \<and>
      [Join, IqSuccess 0, Dispose] ! k = (IqSuccess n :: string input) \<and>
      n < length (iqCallbacks (run textNodes (take k [Join, IqSuccess 0, Dispose]) exampleQueue)) \<and>
      iqCallbacks (run textNodes (take k [Join, IqSuccess 0, Dispose]) exampleQueue) ! n
        = Some (JoinCallbacks p)) \<and>
   hasJoined (dispose exampleJoined) = hasJoined exampleJoined"
proof -
  have h: "hasJoined (run textNodes [Join, IqSuccess 0, Dispose]
      (constructor 0 ''jibri-queue@example.org'' ''room@conference.example.org'' :: string JibriQueue))"
    by code_simp
  from joined_only_after_join_acknowledgment [of textNodes "[Join, IqSuccess 0, Dispose]" 0
      "''jibri-queue@example.org''" "''room@conference.example.org''" exampleJoined] h
  show ?thesis unfolding exampleQueue_def by blast
qed

text \<open>
  C2 as stated fails: after a join and a leave that were both answered with success,
  and after a join answered with success followed by \<open>dispose()\<close>, the flag is still
  joined.
\<close>

theorem joined_after_leave_or_dispose_counterexample:
  "hasJoined (run textNodes [Join, IqSuccess 0, Leave, IqSuccess 1] exampleQueue) \<and>
   iqCallbacks (run textNodes [Join, IqSuccess 0, Leave, IqSuccess 1] exampleQueue) = [None, None] \<and>
   hasJoined (run textNodes [Join, IqSuccess 0, Dispose] exampleQueue)"
  by code_simp

subsection \<open>The promises of join and leave\<close>

text \<open>
  C1 does not hold of the code: the success callbacks of \<open>join()\<close> and \<open>leave()\<close> never call
  \<open>resolve\<close>. No promise of an instance is resolved in any state it can reach. The promise
  \<open>join()\<close> returns on a queue that is not joined is pending, is still pending after the
  connection has answered the request with success (the flag is set then), and is
  rejected with the connection's error after an error answer; the same holds for the
  promise \<open>leave()\<close> returns on a joined queue.
\<close>

theorem join_leave_promise_not_resolved_on_success:
  fixes s :: "'e JibriQueue"
  shows
    "Resolved \<notin> set (promises (run g ins (constructor c jid room :: 'e JibriQueue))) \<and>
     (\<not> hasJoined s \<longrightarrow>
        promises (snd (join s)) ! fst (join s) = Pending \<and>
        promises (iqSuccess (length (iqCallbacks s)) (snd (join s))) ! fst (join s) = Pending \<and>
        hasJoined (iqSuccess (length (iqCallbacks s)) (snd (join s))) \<and>
        promises (iqError (length (iqCallbacks s)) e (snd (join s))) ! fst (join s)
          = Rejected (TransportError e)) \<and>
     (hasJoined s \<longrightarrow>
        promises (snd (leave s)) ! fst (leave s) = Pending \<and>
        promises (iqSuccess (length (iqCallbacks s)) (snd (leave s))) ! fst (leave s) = Pending \<and>
        promises (iqError (length (iqCallbacks s)) e (snd (leave s))) ! fst (leave s)
          = Rejected (TransportError e))"
proof (intro conjI impI)
  have "Resolved \<notin> set (promises (constructor c jid room :: 'e JibriQueue))"
    by (simp add: constructor_def)
  then show "Resolved \<notin> set (promises (run g ins (constructor c jid room :: 'e JibriQueue)))"
    by (rule unresolved_run)
next
  assume "\<not> hasJoined s"
  then show "promises (snd (join s)) ! fst (join s) = Pending"
    and "promises (iqSuccess (length (iqCallbacks s)) (snd (join s))) ! fst (join s) = Pending"
    and "hasJoined (iqSuccess (length (iqCallbacks s)) (snd (join s)))"
    and "promises (iqError (length (iqCallbacks s)) e (snd (join s))) ! fst (join s)
          = Rejected (TransportError e)"
    by (simp_all add: join_def newPromise_def sendIQ_def iqSuccess_def iqError_def reject_def)
next
  assume "hasJoined s"
  then show "promises (snd (leave s)) ! fst (leave s) = Pending"
    and "promises (iqSuccess (length (iqCallbacks s)) (snd (leave s))) ! fst (leave s) = Pending"
    and "promises (iqError (length (iqCallbacks s)) e (snd (leave s))) ! fst (leave s)
          = Rejected (TransportError e)"
    by (simp_all add: leave_def newPromise_def sendIQ_def iqSuccess_def iqError_def reject_def)
qed

theorem join_leave_promise_not_resolved_on_success_witness:
  "\<not> hasJoined exampleQueue \<and>
   promises (run textNodes [Join, IqSuccess 0] exampleQueue) = [Pending] \<and>
   hasJoined exampleJoined \<and>
   promises (run textNodes [Join, IqSuccess 0, Leave, IqSuccess 1] exampleQueue) = [Pending, Pending] \<and>
   promises (run textNodes [Join, IqError 0 ''remote-server-timeout''] exampleQueue)
     = [Rejected (TransportError ''remote-server-timeout'')] \<and>
   promises (iqSuccess (length (iqCallbacks exampleQueue)) (snd (join exampleQueue)))
     ! fst (join exampleQueue) = Pending \<and>
   promises (iqSuccess (length (iqCallbacks exampleJoined)) (snd (leave exampleJoined)))
     ! fst (leave exampleJoined) = Pending"
proof -
  have h: "\<not> hasJoined exampleQueue" "hasJoined exampleJoined" by code_simp+
  have e: "promises (run textNodes [Join, IqSuccess 0] exampleQueue) = [Pending]"
    "promises (run textNodes [Join, IqSuccess 0, Leave, IqSuccess 1] exampleQueue) = [Pending, Pending]"
    "promises (run textNodes [Join, IqError 0 ''remote-server-timeout''] exampleQueue)
       = [Rejected (TransportError ''remote-server-timeout'')]"
    by code_simp+
  from join_leave_promise_not_resolved_on_success [of textNodes "[]" 0 "''q''" "''r''" exampleQueue]
    join_leave_promise_not_resolved_on_success [of textNodes "[]" 0 "''q''" "''r''" exampleJoined]
    h e
  show ?thesis by blast
qed

end
